theory Spec2Isabelle
  imports Main
begin

section \<open>Python strings\<close>

text \<open>
  A Python \<open>str\<close> is modelled as a \<open>string\<close> whose characters are the code points
  0 to 255 (Latin-1); text with code points beyond 255 is outside the model.
  \<open>str.isspace\<close>, \<open>str.lower\<close>, \<open>str.strip\<close>, \<open>str.split\<close>,
  \<open>str.startswith\<close> and \<open>str.endswith\<close> are given on that range as CPython computes
  them.
\<close>

abbreviation LF :: char where "LF \<equiv> CHR 0x0A"
abbreviation CR :: char where "CR \<equiv> CHR 0x0D"

definition py_isspace :: "char \<Rightarrow> bool" where
  \<comment> \<open>tab, LF, VT, FF, CR, the separators FS GS RS US, space, NEL and NBSP\<close>
  "py_isspace c = (let n = (of_char c :: nat) in
     (9 \<le> n \<and> n \<le> 13) \<or> (28 \<le> n \<and> n \<le> 32) \<or> n = 133 \<or> n = 160)"

definition py_isupper :: "char \<Rightarrow> bool" where
  \<comment> \<open>A to Z, and the Latin-1 capitals 0xC0 to 0xDE without the multiplication sign\<close>
  "py_isupper c = (let n = (of_char c :: nat) in
     (65 \<le> n \<and> n \<le> 90) \<or> (192 \<le> n \<and> n \<le> 222 \<and> n \<noteq> 215))"

definition py_lower_char :: "char \<Rightarrow> char" where
  \<comment> \<open>the lower-case letter is the code point plus 32, that is bit 5 set\<close>
  "py_lower_char c = (if py_isupper c then
     (case c of Char b0 b1 b2 b3 b4 b5 b6 b7 \<Rightarrow> Char b0 b1 b2 b3 b4 True b6 b7) else c)"

definition lower :: "string \<Rightarrow> string" where
  "lower s = map py_lower_char s"

definition lstrip :: "string \<Rightarrow> string" where
  "lstrip s = dropWhile py_isspace s"

definition rstrip :: "string \<Rightarrow> string" where
  "rstrip s = rev (dropWhile py_isspace (rev s))"

definition strip :: "string \<Rightarrow> string" where
  "strip s = lstrip (rstrip s)"

definition startswith :: "string \<Rightarrow> string \<Rightarrow> bool" where
  "startswith s p = (take (length p) s = p)"

definition endswith :: "string \<Rightarrow> string \<Rightarrow> bool" where
  "endswith s suf = (length suf \<le> length s \<and> drop (length s - length suf) s = suf)"

fun split_on :: "char \<Rightarrow> string \<Rightarrow> string list" where
  \<comment> \<open>\<open>s.split(c)\<close> for a one-character separator: never the empty list\<close>
  "split_on c [] = [[]]"
| "split_on c (x # xs) =
     (if x = c then [] # split_on c xs
      else (case split_on c xs of [] \<Rightarrow> [[x]] | l # ls \<Rightarrow> (x # l) # ls))"

fun basename :: "string \<Rightarrow> string" where
  \<comment> \<open>\<open>os.path.basename\<close>: what follows the last slash\<close>
  "basename p = rev (takeWhile (\<lambda>c. c \<noteq> CHR ''/'') (rev p))"

fun digit_char :: "nat \<Rightarrow> char" where
  \<comment> \<open>used below 10 only\<close>
  "digit_char n = ''0123456789'' ! n"

function str_nat :: "nat \<Rightarrow> string" where
  \<comment> \<open>\<open>str(n)\<close>, as an f-string renders a non-negative integer\<close>
  "str_nat n = (if n < 10 then [digit_char n] else str_nat (n div 10) @ [digit_char (n mod 10)])"
  by pat_completeness auto
termination
  by (relation "measure id") auto

declare str_nat.simps [simp del]

section \<open>The world outside the script\<close>

text \<open>
  An exception is its class name and its \<open>str(e)\<close>. Only subclasses of \<open>Exception\<close> are
  modelled (interrupts and \<open>SystemExit\<close> raised by libraries are not).
\<close>

datatype exn = Exn (exn_class: string) (exn_str: string)

text \<open>
  What \<open>subprocess.run(cmd, capture_output=True, text=True, check=True, timeout=30)\<close>
  does: it returns the decoded standard output, or raises \<open>CalledProcessError\<close> (non-zero
  exit; its \<open>stderr\<close> and its \<open>str(e)\<close>), or \<open>TimeoutExpired\<close> (its \<open>stderr\<close>, which may
  be \<open>None\<close>, and its \<open>str(e)\<close>), or another exception when the command cannot be
  started or its output cannot be decoded.
\<close>

datatype proc_outcome =
    Completed string
  | CalledProcessError string string
  | TimeoutExpired "string option" string
  | OtherError exn

text \<open>
  An opened SQLite database: the rows of the \<open>sqlite_master\<close> query (the table names) and
  the result of the count query of each table, either of which may raise.
\<close>

record database =
  table_names :: "exn + string list"
  count_rows :: "string \<Rightarrow> exn + nat"

text \<open>
  Everything the script reads and does not change:
  the catalog \<open>list/bricks.txt\<close> (\<open>None\<close> when it does not exist, otherwise its decoded
  text), the command \<open>biobricks assets <name>\<close>, the lookup
  \<open>getattr(bb.assets(brick_name), key)\<close>, the fragment row counts of a Parquet dataset,
  \<open>sqlite3.connect\<close>, the number of triples \<open>rdflib\<close> parses, and \<open>os.path.getsize\<close>.
\<close>

record world =
  catalog :: "string option"
  assets_cmd :: "string \<Rightarrow> proc_outcome"
  asset_path :: "string \<Rightarrow> string \<Rightarrow> exn + string"
  parquet_fragments :: "string \<Rightarrow> exn + nat list"
  sqlite_connect :: "string \<Rightarrow> exn + database"
  rdf_parse :: "string \<Rightarrow> exn + nat"
  getsize :: "string \<Rightarrow> exn + nat"

text \<open>
  One line printed on standard output, by the \<open>print\<close> call that writes it:
  \<open>Verifying\<close> (line 157), \<open>Found\<close> (165), \<open>AssetOk\<close> (174), \<open>Passed\<close> (176),
  \<open>Failed\<close> (152), \<open>Starting\<close> (196), \<open>Summary\<close> (207 to 209), \<open>Recorded\<close> (212),
  \<open>AllVerified\<close> (215).
\<close>

datatype event =
    Verifying string
  | Found nat
  | AssetOk string string
  | Passed string
  | Failed string string
  | Starting nat
  | Summary nat nat
  | Recorded
  | AllVerified

text \<open>
  Everything the script changes: whether the directory \<open>fail\<close> exists, the text of
  \<open>fail/failures.txt\<close> (\<open>None\<close> when the file does not exist), the lines printed on
  standard output and standard error, and the number of SQLite connections that were
  opened and not closed. A connection is released by \<open>close()\<close> only.
\<close>

record state =
  fail_dir :: bool
  failures_txt :: "string option"
  stdout :: "event list"
  stderr :: "string list"
  open_handles :: nat

definition print :: "event \<Rightarrow> state \<Rightarrow> state" where
  "print ev s = s\<lparr>stdout := stdout s @ [ev]\<rparr>"

section \<open>Asset resolver\<close>

definition run_command :: "proc_outcome \<Rightarrow> exn + bool \<times> string" where
  \<comment> \<open>its argument is the outcome of \<open>subprocess.run\<close> on the command\<close>
  "run_command r =
     (case r of
        Completed out \<Rightarrow> Inr (True, strip out)
      | CalledProcessError err msg \<Rightarrow> Inr (False, if err \<noteq> [] then err else msg)
      | TimeoutExpired err msg \<Rightarrow>
          Inr (False, case err of None \<Rightarrow> msg | Some t \<Rightarrow> if t \<noteq> [] then t else msg)
      | OtherError e \<Rightarrow> Inl e)"

fun asset_lines :: "string list \<Rightarrow> string list" where
  \<comment> \<open>the loop of lines 49 to 52\<close>
  "asset_lines [] = []"
| "asset_lines (line # rest) =
     (let line' = strip line in
      if line' \<noteq> [] then line' # asset_lines rest else asset_lines rest)"

definition get_brick_assets :: "world \<Rightarrow> string \<Rightarrow> exn + bool \<times> string list" where
  "get_brick_assets w brick_name =
     (case run_command (assets_cmd w brick_name) of
        Inl e \<Rightarrow> Inl e
      | Inr (success, output) \<Rightarrow>
          if \<not> success then Inr (False, [])
          else (let asset_files = asset_lines (split_on LF output)
                in Inr (0 < length asset_files, asset_files)))"

section \<open>Format verifiers\<close>

definition verify_parquet_file :: "world \<Rightarrow> string \<Rightarrow> bool \<times> string" where
  "verify_parquet_file w file_path =
     (case parquet_fragments w file_path of
        Inl e \<Rightarrow> (False, ''Failed to load parquet file: '' @ exn_str e)
      | Inr fragments \<Rightarrow>
          (let row_count = sum_list fragments in
           if 0 < row_count then (True, ''Parquet file has '' @ str_nat row_count @ '' rows'')
           else (False, ''Parquet file is empty ('' @ str_nat row_count @ '' rows)'')))"

fun count_tables :: "database \<Rightarrow> string list \<Rightarrow> nat \<Rightarrow> exn + nat" where
  \<comment> \<open>the loop of lines 91 to 94, from the running total\<close>
  "count_tables db [] total_rows = Inr total_rows"
| "count_tables db (table_name # rest) total_rows =
     (case count_rows db table_name of
        Inl e \<Rightarrow> Inl e
      | Inr count \<Rightarrow> count_tables db rest (total_rows + count))"

definition conn_open :: "state \<Rightarrow> state" where
  \<comment> \<open>\<open>sqlite3.connect\<close> has returned a connection\<close>
  "conn_open s = s\<lparr>open_handles := open_handles s + 1\<rparr>"

definition conn_close :: "state \<Rightarrow> state" where
  \<comment> \<open>\<open>conn.close()\<close>\<close>
  "conn_close s = s\<lparr>open_handles := open_handles s - 1\<rparr>"

definition sqlite_failed :: "exn \<Rightarrow> bool \<times> string" where
  \<comment> \<open>the handler of lines 103 and 104\<close>
  "sqlite_failed e = (False, ''Failed to access SQLite file: '' @ exn_str e)"

definition verify_sqlite_file :: "world \<Rightarrow> string \<Rightarrow> state \<Rightarrow> (bool \<times> string) \<times> state" where
  "verify_sqlite_file w file_path s =
     (case sqlite_connect w file_path of
        Inl e \<Rightarrow> (sqlite_failed e, s)
      | Inr db \<Rightarrow>
          (let s1 = conn_open s in
           case table_names db of
             Inl e \<Rightarrow> (sqlite_failed e, s1)
           | Inr tables \<Rightarrow>
               if tables = [] then ((False, ''SQLite file has no tables''), conn_close s1)
               else (let table_count = length tables in
                     case count_tables db tables 0 of
                       Inl e \<Rightarrow> (sqlite_failed e, s1)
                     | Inr total_rows \<Rightarrow>
                         (let s2 = conn_close s1 in
                          if 0 < total_rows
                          then ((True, ''SQLite file has '' @ str_nat table_count @ '' tables with ''
                                   @ str_nat total_rows @ '' total rows''), s2)
                          else ((False, ''SQLite file has '' @ str_nat table_count
                                   @ '' tables but 0 rows''), s2)))))"

definition verify_hdt_file :: "world \<Rightarrow> string \<Rightarrow> bool \<times> string" where
  "verify_hdt_file w file_path =
     (case rdf_parse w file_path of
        Inl e \<Rightarrow> (False, ''Failed to load HDT file: '' @ exn_str e)
      | Inr triple_count \<Rightarrow>
          if 0 < triple_count then (True, ''HDT file has '' @ str_nat triple_count @ '' triples'')
          else (False, ''HDT file is empty (0 triples)''))"

definition verify_other_file :: "world \<Rightarrow> string \<Rightarrow> bool \<times> string" where
  \<comment> \<open>the last branch of \<open>verify_asset_file\<close>, lines 138 to 144\<close>
  "verify_other_file w file_path =
     (case getsize w file_path of
        Inl e \<Rightarrow> (False, ''Failed to check file: '' @ exn_str e)
      | Inr nbytes \<Rightarrow>
          if 0 < nbytes then (True, ''File exists and has size '' @ str_nat nbytes @ '' bytes'')
          else (False, ''File is empty (0 bytes)''))"

definition verify_asset_file ::
  "world \<Rightarrow> string \<Rightarrow> string \<Rightarrow> state \<Rightarrow> (exn + bool \<times> string) \<times> state" where
  "verify_asset_file w file_path brick_name s =
     (let file_path_lower = lower file_path;
          brick_file = hd (split_on (CHR '':'') file_path)
      in case asset_path w brick_name brick_file of
           Inl e \<Rightarrow> (Inl e, s)
         | Inr brick_path \<Rightarrow>
             if endswith file_path_lower ''.parquet''
             then (Inr (verify_parquet_file w brick_path), s)
             else if endswith file_path_lower ''.sqlite'' \<or> endswith file_path_lower ''.sqlite3''
                     \<or> endswith file_path_lower ''.db''
             then (case verify_sqlite_file w brick_path s of (r, s') \<Rightarrow> (Inr r, s'))
             else if endswith file_path_lower ''.hdt''
             then (Inr (verify_hdt_file w brick_path), s)
             else (Inr (verify_other_file w file_path), s))"

section \<open>Brick verifier\<close>

definition record_failure :: "string \<Rightarrow> string \<Rightarrow> state \<Rightarrow> state" where
  \<comment> \<open>\<open>makedirs\<close>, then the brick name and a newline appended to the file, then the print\<close>
  "record_failure brick_name reason s =
     print (Failed brick_name reason)
       (s\<lparr>fail_dir := True,
          failures_txt :=
            Some ((case failures_txt s of None \<Rightarrow> [] | Some t \<Rightarrow> t) @ brick_name @ [LF])\<rparr>)"

fun verify_assets :: "world \<Rightarrow> string \<Rightarrow> string list \<Rightarrow> state \<Rightarrow> (exn + bool) \<times> state" where
  \<comment> \<open>the loop of lines 168 to 174; \<open>Inr True\<close> when it runs to its end\<close>
  "verify_assets w brick_name [] s = (Inr True, s)"
| "verify_assets w brick_name (asset_file # rest) s =
     (case verify_asset_file w asset_file brick_name s of
        (Inl e, s') \<Rightarrow> (Inl e, s')
      | (Inr (success, message), s') \<Rightarrow>
          if \<not> success
          then (Inr False,
                record_failure brick_name
                  (''Asset verification failed for '' @ asset_file @ '': '' @ message) s')
          else verify_assets w brick_name rest (print (AssetOk (basename asset_file) message) s'))"

definition verify_brick :: "world \<Rightarrow> string \<Rightarrow> state \<Rightarrow> (exn + bool) \<times> state" where
  "verify_brick w brick_name s =
     (let s1 = print (Verifying brick_name) s in
      case get_brick_assets w brick_name of
        Inl e \<Rightarrow> (Inl e, s1)
      | Inr (has_assets, asset_files) \<Rightarrow>
          if \<not> has_assets
          then (Inr False,
                record_failure brick_name
                  ''No assets found or biobricks assets command failed'' s1)
          else (case verify_assets w brick_name asset_files
                       (print (Found (length asset_files)) s1) of
                  (Inr True, s2) \<Rightarrow> (Inr True, print (Passed brick_name) s2)
                | (r, s2) \<Rightarrow> (r, s2)))"

section \<open>Run driver\<close>

fun universal_newlines :: "bool \<Rightarrow> string \<Rightarrow> string" where
  \<comment> \<open>text mode of \<open>open\<close>: CR LF and a lone CR are read as LF; the flag says that the
      character before was CR\<close>
  "universal_newlines after_cr [] = []"
| "universal_newlines after_cr (x # xs) =
     (if x = CR then LF # universal_newlines True xs
      else if x = LF \<and> after_cr then universal_newlines False xs
      else x # universal_newlines False xs)"

fun file_lines :: "string \<Rightarrow> string list" where
  \<comment> \<open>iterating over a text file: the lines, each with its LF, the last perhaps without\<close>
  "file_lines [] = []"
| "file_lines (x # xs) =
     (if x = LF then [x] # file_lines xs
      else (case file_lines xs of [] \<Rightarrow> [[x]] | l # ls \<Rightarrow> (x # l) # ls))"

fun brick_names :: "string list \<Rightarrow> string list" where
  \<comment> \<open>the comprehension of line 194\<close>
  "brick_names [] = []"
| "brick_names (line # rest) =
     (if strip line \<noteq> [] \<and> \<not> startswith line ''#''
      then strip line # brick_names rest else brick_names rest)"

definition read_brick_names :: "string \<Rightarrow> string list" where
  \<comment> \<open>lines 193 and 194, from the text of the catalog\<close>
  "read_brick_names text = brick_names (file_lines (universal_newlines False text))"

fun run_bricks ::
  "world \<Rightarrow> string list \<Rightarrow> nat \<Rightarrow> nat \<Rightarrow> state \<Rightarrow> exn option \<times> nat \<times> nat \<times> state" where
  \<comment> \<open>the loop of lines 201 to 205, from the two counters; \<open>Some e\<close> when \<open>e\<close> escapes it\<close>
  "run_bricks w [] success_count failure_count s = (None, success_count, failure_count, s)"
| "run_bricks w (brick_name # rest) success_count failure_count s =
     (case verify_brick w brick_name s of
        (Inl e, s') \<Rightarrow> (Some e, success_count, failure_count, s')
      | (Inr ok, s') \<Rightarrow>
          if ok then run_bricks w rest (success_count + 1) failure_count s'
          else run_bricks w rest success_count (failure_count + 1) s')"

text \<open>
  How the process ends: \<open>main\<close> returns, or \<open>sys.exit(n)\<close>, or an exception that nothing
  catches. The interpreter exits with status 0, \<open>n\<close>, and 1 (after the traceback).
\<close>

datatype exit_kind = Returned | SysExit nat | Uncaught exn

fun exit_status :: "exit_kind \<Rightarrow> nat" where
  "exit_status Returned = 0"
| "exit_status (SysExit n) = n"
| "exit_status (Uncaught e) = 1"

text \<open>
  A run: how it ended, the two counters when it ended (0 when line 198 was not
  reached), and the state it left.
\<close>

record run =
  ending :: exit_kind
  success_count :: nat
  failure_count :: nat
  final :: state

definition main :: "world \<Rightarrow> state \<Rightarrow> run" where
  "main w s =
     (case catalog w of
        None \<Rightarrow>
          \<lparr>ending = SysExit 1, success_count = 0, failure_count = 0,
           final = s\<lparr>stderr := stderr s @ [''Error: list/bricks.txt not found'']\<rparr>\<rparr>
      | Some text \<Rightarrow>
          (let s1 = (if failures_txt s \<noteq> None then s\<lparr>failures_txt := None\<rparr> else s);
               names = read_brick_names text;
               s2 = print (Starting (length names)) s1
           in case run_bricks w names 0 0 s2 of
                (Some e, sc, fc, s3) \<Rightarrow>
                  \<lparr>ending = Uncaught e, success_count = sc, failure_count = fc, final = s3\<rparr>
              | (None, sc, fc, s3) \<Rightarrow>
                  (let s4 = print (Summary sc fc) s3 in
                   if 0 < fc
                   then \<lparr>ending = SysExit 1, success_count = sc, failure_count = fc,
                         final = print Recorded s4\<rparr>
                   else \<lparr>ending = Returned, success_count = sc, failure_count = fc,
                         final = print AllVerified s4\<rparr>)))"

section \<open>The specification's vocabulary\<close>

text \<open>
  The kinds of checker, the recognised suffixes in their order of precedence, a suffix test
  that ignores case, the choice of the first suffix of the table that matches, and the
  checker of each kind with the input it is given.
\<close>

datatype checker = Columnar | Relational | TripleStore | Generic

definition suffix_table :: "(string \<times> checker) list" where
  "suffix_table =
     [(''.parquet'', Columnar), (''.sqlite'', Relational), (''.sqlite3'', Relational),
      (''.db'', Relational), (''.hdt'', TripleStore)]"

definition ci_suffix :: "string \<Rightarrow> string \<Rightarrow> bool" where
  "ci_suffix name suf =
     (length suf \<le> length name \<and> lower (drop (length name - length suf) name) = lower suf)"

definition spec_dispatch :: "string \<Rightarrow> checker" where
  "spec_dispatch ref =
     (case find (\<lambda>(suf, k). ci_suffix ref suf) suffix_table of
        None \<Rightarrow> Generic
      | Some (suf, k) \<Rightarrow> k)"

definition run_checker ::
  "world \<Rightarrow> checker \<Rightarrow> string \<Rightarrow> string \<Rightarrow> state \<Rightarrow> (bool \<times> string) \<times> state" where
  "run_checker w k resolved original s =
     (case k of
        Columnar \<Rightarrow> (verify_parquet_file w resolved, s)
      | Relational \<Rightarrow> verify_sqlite_file w resolved s
      | TripleStore \<Rightarrow> (verify_hdt_file w resolved, s)
      | Generic \<Rightarrow> (verify_other_file w original, s))"

text \<open>
  The asset references in the output of the lookup command: its lines, stripped, the blank
  ones left out.
\<close>

definition nonblank_lines :: "string \<Rightarrow> string list" where
  "nonblank_lines out = filter (\<lambda>l. l \<noteq> []) (map strip (split_on LF out))"

text \<open>
  The text of the failure log (empty when the file does not exist), the text that a list
  of recorded names makes, the names read back from the log, and the bricks whose
  verification was started, read from standard output.
\<close>

definition log_text :: "state \<Rightarrow> string" where
  "log_text s = (case failures_txt s of None \<Rightarrow> [] | Some t \<Rightarrow> t)"

definition joined :: "string list \<Rightarrow> string" where
  "joined names = concat (map (\<lambda>b. b @ [LF]) names)"

definition recorded :: "state \<Rightarrow> string list" where
  "recorded s =
     (case failures_txt s of
        None \<Rightarrow> []
      | Some t \<Rightarrow> map (takeWhile (\<lambda>c. c \<noteq> LF)) (file_lines t))"

fun verified :: "event list \<Rightarrow> string list" where
  "verified [] = []"
| "verified (Verifying b # evs) = b # verified evs"
| "verified (ev # evs) = verified evs"

section \<open>Example worlds\<close>

definition s0 :: state where
  "s0 = \<lparr>fail_dir = False, failures_txt = None, stdout = [], stderr = [], open_handles = 0\<rparr>"

definition stale :: state where
  "stale = \<lparr>fail_dir = True, failures_txt = Some ''old\<newline>'', stdout = [], stderr = [],
            open_handles = 0\<rparr>"

definition dispatch_world :: world where
  "dispatch_world =
     \<lparr>catalog = None,
      assets_cmd = (\<lambda>b. Completed []),
      asset_path = (\<lambda>b k. if k = ''data_PARQUET'' then Inr ''/mnt/bricks/data.db''
                           else if k = ''notes'' then Inr ''/mnt/bricks/notes.txt''
                           else Inl (Exn ''AttributeError'' k)),
      parquet_fragments = (\<lambda>p. if p = ''/mnt/bricks/data.db'' then Inr [3, 0, 4]
                                else Inl (Exn ''FileNotFoundError'' p)),
      sqlite_connect = (\<lambda>p. Inl (Exn ''OperationalError'' ''unable to open database file'')),
      rdf_parse = (\<lambda>p. Inl (Exn ''ParserError'' p)),
      getsize = (\<lambda>p. if p = ''/mnt/bricks/notes.txt'' then Inr 12
                      else Inl (Exn ''FileNotFoundError'' p))\<rparr>"

definition no_tables :: database where
  "no_tables = \<lparr>table_names = Inr [], count_rows = (\<lambda>t. Inr 0)\<rparr>"

definition demo_world :: world where
  "demo_world =
     \<lparr>catalog = Some ''alpha\<newline>alpha\<newline>'',
      assets_cmd = (\<lambda>b. Completed
         ''one_parquet: /d/one.parquet\<newline>two_db: /d/two.db\<newline>three_hdt: /d/three.hdt\<newline>''),
      asset_path = (\<lambda>b k. if k = ''one_parquet'' then Inr ''/d/one.parquet''
                           else if k = ''two_db'' then Inr ''/d/two.db''
                           else Inl (Exn ''AttributeError'' k)),
      parquet_fragments = (\<lambda>p. if p = ''/d/one.parquet'' then Inr [5]
                                else Inl (Exn ''FileNotFoundError'' p)),
      sqlite_connect = (\<lambda>p. Inr no_tables),
      rdf_parse = (\<lambda>p. Inl (Exn ''ParserError'' p)),
      getsize = (\<lambda>p. Inl (Exn ''FileNotFoundError'' p))\<rparr>"

definition nocat_world :: world where
  "nocat_world = demo_world\<lparr>catalog := None\<rparr>"

definition ok_world :: world where
  "ok_world = demo_world
     \<lparr>catalog := Some ''# checked nightly\<newline>\<newline>alpha\<newline>  #beta \<newline>'',
      assets_cmd := (\<lambda>b. Completed ''one_parquet: /d/one.parquet\<newline>'')\<rparr>"

definition crash_world :: world where
  "crash_world = demo_world
     \<lparr>catalog := Some ''alpha\<newline>beta\<newline>'',
      assets_cmd := (\<lambda>b. Completed ''data_parquet: /d/data.parquet\<newline>'')\<rparr>"

definition not_a_database :: database where
  "not_a_database =
     \<lparr>table_names = Inl (Exn ''DatabaseError'' ''file is not a database''),
      count_rows = (\<lambda>t. Inl (Exn ''DatabaseError'' ''file is not a database''))\<rparr>"

definition notdb_world :: world where
  "notdb_world = demo_world\<lparr>sqlite_connect := (\<lambda>p. Inr not_a_database)\<rparr>"

definition lookup_world :: world where
  "lookup_world = demo_world
     \<lparr>assets_cmd := (\<lambda>b.
        if b = ''good'' then Completed ''\<newline>  b.db \<newline>\<newline>a.parquet\<newline>''
        else if b = ''blank'' then Completed '' \<newline>\<newline>''
        else if b = ''missing''
        then CalledProcessError ''no such brick'' ''Command returned non-zero exit status 1.''
        else TimeoutExpired None ''Command timed out after 30 seconds'')\<rparr>"

section \<open>Strings and lines\<close>

lemmas py_simps = strip_def lstrip_def rstrip_def py_isspace_def startswith_def endswith_def
  lower_def py_lower_char_def py_isupper_def

text \<open>\<open>py_lower_char\<close> adds 32 to the code point of a capital and leaves the rest.\<close>

lemma py_lower_char_code:
  "of_char (py_lower_char c) = (if py_isupper c then of_char c + 32 else (of_char c :: nat))"
proof (cases c)
  case (Char b0 b1 b2 b3 b4 b5 b6 b7)
  show ?thesis
  proof (cases "py_isupper c")
    case False
    then show ?thesis by (simp add: py_lower_char_def)
  next
    case True
    have "\<not> b5"
    proof
      assume b5
      with True show False
        unfolding Char py_isupper_def Let_def
        by (cases b6; cases b7; simp; cases b0; cases b1; cases b2; cases b3; cases b4; simp)
    qed
    with True show ?thesis by (simp add: py_lower_char_def Char)
  qed
qed

lemma LF_space [simp]: "py_isspace LF"
  by (simp add: py_isspace_def)

lemma strip_Nil [simp]: "strip [] = []"
  by (simp add: strip_def lstrip_def rstrip_def)

lemma rstrip_all_space: "\<forall>c\<in>set l. py_isspace c \<Longrightarrow> rstrip l = []"
  by (simp add: rstrip_def dropWhile_eq_Nil_conv)

lemma rstrip_Cons:
  "rstrip (x # l) = (if \<forall>c\<in>set (x # l). py_isspace c then [] else x # rstrip l)"
  unfolding rstrip_def
  by (auto simp: dropWhile_append3 dropWhile_append2 dropWhile_eq_Nil_conv dropWhile_append)

lemma strip_Cons_space:
  assumes "py_isspace x"
  shows "strip (x # l) = strip l"
proof (cases "\<forall>c\<in>set l. py_isspace c")
  case True
  then have "rstrip l = []" "rstrip (x # l) = []"
    using assms by (simp_all add: rstrip_all_space)
  then show ?thesis by (simp add: strip_def)
next
  case False
  then have "rstrip (x # l) = x # rstrip l"
    by (auto simp: rstrip_Cons)
  then show ?thesis using assms by (simp add: strip_def lstrip_def)
qed

lemma strip_snoc_space: "py_isspace x \<Longrightarrow> strip (l @ [x]) = strip l"
  by (simp add: strip_def rstrip_def)

lemma strip_subset: "set (strip l) \<subseteq> set l"
  unfolding strip_def lstrip_def rstrip_def
  by (metis (no_types, lifting) set_dropWhileD set_rev subsetI)

lemma split_on_nonempty: "split_on c s \<noteq> []"
  by (induction s) (auto split: list.splits)

lemma hd_split_on: "hd (split_on c s) = takeWhile (\<lambda>x. x \<noteq> c) s"
  by (induction s) (auto split: list.splits simp: split_on_nonempty)

lemma split_on_snoc:
  "split_on c (xs @ [x]) =
     (if x = c then split_on c xs @ [[]]
      else butlast (split_on c xs) @ [last (split_on c xs) @ [x]])"
  by (induction xs) (auto split: list.splits simp: split_on_nonempty)

lemma file_lines_line:
  "LF \<notin> set b \<Longrightarrow> file_lines (b @ LF # rest) = (b @ [LF]) # file_lines rest"
  by (induction b) auto

lemma file_lines_shape:
  "l \<in> set (file_lines t) \<Longrightarrow> LF \<notin> set (butlast l)"
proof (induction t arbitrary: l)
  case Nil
  then show ?case by simp
next
  case (Cons x xs)
  show ?case
  proof (cases "x = LF")
    case True
    with Cons show ?thesis by auto
  next
    case False
    show ?thesis
    proof (cases "file_lines xs")
      case Nil
      with Cons.prems False show ?thesis by simp
    next
      case (Cons l0 ls)
      with Cons.prems False have "l = x # l0 \<or> l \<in> set ls" by simp
      then show ?thesis
      proof
        assume "l = x # l0"
        moreover have "LF \<notin> set (butlast l0)"
          using Cons.IH [of l0] Cons by simp
        ultimately show ?thesis using False by (auto split: if_splits)
      next
        assume "l \<in> set ls"
        then show ?thesis using Cons.IH [of l] Cons by simp
      qed
    qed
  qed
qed

lemma strip_no_LF:
  assumes "LF \<notin> set (butlast l)"
  shows "LF \<notin> set (strip l)"
proof (cases l rule: rev_cases)
  case Nil
  then show ?thesis by (simp add: strip_def lstrip_def rstrip_def)
next
  case (snoc xs x)
  with assms have xs: "LF \<notin> set xs" by simp
  show ?thesis
  proof (cases "py_isspace x")
    case True
    then have "strip l = strip xs"
      by (simp add: snoc strip_def rstrip_def)
    with xs strip_subset [of xs] show ?thesis by auto
  next
    case False
    then have "x \<noteq> LF" by auto
    with xs snoc have "LF \<notin> set l" by simp
    with strip_subset [of l] show ?thesis by auto
  qed
qed

lemma brick_names_eq:
  "brick_names ls = map strip (filter (\<lambda>l. strip l \<noteq> [] \<and> \<not> startswith l ''#'') ls)"
  by (induction ls) auto

lemma brick_names_no_LF:
  "b \<in> set (read_brick_names content) \<Longrightarrow> LF \<notin> set b"
  using file_lines_shape strip_no_LF by (auto simp: brick_names_eq read_brick_names_def)

section \<open>Asset resolver\<close>

lemma asset_lines_eq: "asset_lines ls = filter (\<lambda>l. l \<noteq> []) (map strip ls)"
  by (induction ls) (auto simp: Let_def)

lemma nonblank_lstrip: "nonblank_lines (lstrip s) = nonblank_lines s"
proof (induction s)
  case Nil
  then show ?case by (simp add: lstrip_def)
next
  case (Cons x xs)
  show ?case
  proof (cases "py_isspace x")
    case True
    have "nonblank_lines (x # xs) = nonblank_lines xs"
      using True
      by (cases "split_on LF xs") (auto simp: nonblank_lines_def strip_Cons_space split_on_nonempty)
    then show ?thesis using Cons True by (simp add: lstrip_def)
  next
    case False
    then show ?thesis by (simp add: lstrip_def)
  qed
qed

lemma nonblank_rstrip: "nonblank_lines (rstrip s) = nonblank_lines s"
proof (induction s rule: rev_induct)
  case Nil
  then show ?case by (simp add: rstrip_def)
next
  case (snoc x xs)
  show ?case
  proof (cases "py_isspace x")
    case True
    obtain ls l where sp: "split_on LF xs = ls @ [l]"
      using split_on_nonempty [of LF xs] by (metis rev_exhaust)
    have "nonblank_lines (xs @ [x]) = nonblank_lines xs"
      using True by (auto simp: nonblank_lines_def split_on_snoc sp strip_snoc_space)
    moreover have "rstrip (xs @ [x]) = rstrip xs"
      using True by (simp add: rstrip_def)
    ultimately show ?thesis using snoc by simp
  next
    case False
    then show ?thesis by (simp add: rstrip_def)
  qed
qed

lemma nonblank_strip: "nonblank_lines (strip s) = nonblank_lines s"
  by (simp add: strip_def nonblank_lstrip nonblank_rstrip)

text \<open>
  An exception of \<open>subprocess.run\<close> other than the two that \<open>run_command\<close> names is
  not caught.
\<close>

lemma asset_resolver_raises:
  "assets_cmd w brick = OtherError e \<Longrightarrow> get_brick_assets w brick = Inl e"
  by (simp add: get_brick_assets_def run_command_def)

text \<open>
  Claim C7. When the lookup command completes, the resolver returns the non-blank lines
  of its output, stripped and in the order of the output, and \<open>ok\<close> is true exactly when
  there is at least one; when the command exits with a non-zero status or times out, the
  resolver returns \<open>(False, [])\<close>.
\<close>

theorem asset_resolver_result:
  "(assets_cmd w brick = Completed out \<longrightarrow>
      get_brick_assets w brick = Inr (nonblank_lines out \<noteq> [], nonblank_lines out))
   \<and> (assets_cmd w brick = CalledProcessError err msg \<longrightarrow>
      get_brick_assets w brick = Inr (False, []))
   \<and> (assets_cmd w brick = TimeoutExpired err' msg \<longrightarrow>
      get_brick_assets w brick = Inr (False, []))"
  by (simp add: get_brick_assets_def run_command_def asset_lines_eq Let_def
      nonblank_strip [unfolded nonblank_lines_def] nonblank_lines_def)

text \<open>
  A listing with blank lines around two assets, a listing of blank lines only, a non-zero
  exit and a timeout.
\<close>

theorem asset_resolver_result_witness:
  "assets_cmd lookup_world ''good'' = Completed ''\<newline>  b.db \<newline>\<newline>a.parquet\<newline>''
   \<and> get_brick_assets lookup_world ''good'' = Inr (True, [''b.db'', ''a.parquet''])
   \<and> assets_cmd lookup_world ''blank'' = Completed '' \<newline>\<newline>''
   \<and> get_brick_assets lookup_world ''blank'' = Inr (False, [])
   \<and> assets_cmd lookup_world ''missing''
       = CalledProcessError ''no such brick'' ''Command returned non-zero exit status 1.''
   \<and> get_brick_assets lookup_world ''missing'' = Inr (False, [])
   \<and> assets_cmd lookup_world ''slow'' = TimeoutExpired None ''Command timed out after 30 seconds''
   \<and> get_brick_assets lookup_world ''slow'' = Inr (False, [])"
proof -
  have c: "assets_cmd lookup_world ''good'' = Completed ''\<newline>  b.db \<newline>\<newline>a.parquet\<newline>''"
    "assets_cmd lookup_world ''blank'' = Completed '' \<newline>\<newline>''"
    "assets_cmd lookup_world ''missing''
       = CalledProcessError ''no such brick'' ''Command returned non-zero exit status 1.''"
    "assets_cmd lookup_world ''slow'' = TimeoutExpired None ''Command timed out after 30 seconds''"
    by (simp_all add: lookup_world_def)
  have n: "nonblank_lines ''\<newline>  b.db \<newline>\<newline>a.parquet\<newline>'' = [''b.db'', ''a.parquet'']"
    "nonblank_lines '' \<newline>\<newline>'' = []"
    by (simp_all add: nonblank_lines_def py_simps)
  from asset_resolver_result
         [of lookup_world "''good''" "''\<newline>  b.db \<newline>\<newline>a.parquet\<newline>''"]
       asset_resolver_result [of lookup_world "''blank''" "'' \<newline>\<newline>''"]
       asset_resolver_result [of lookup_world "''missing''" _ "''no such brick''"
          "''Command returned non-zero exit status 1.''"]
       asset_resolver_result [of lookup_world "''slow''" _ _ "''Command timed out after 30 seconds''" None]
       c n
  show ?thesis by simp
qed

section \<open>Dispatch\<close>

lemma verify_asset_file_unfold:
  "verify_asset_file w ref brick s =
     (case asset_path w brick (takeWhile (\<lambda>c. c \<noteq> CHR '':'') ref) of
        Inl e \<Rightarrow> (Inl e, s)
      | Inr resolved \<Rightarrow>
          if endswith (lower ref) ''.parquet''
          then (Inr (verify_parquet_file w resolved), s)
          else if endswith (lower ref) ''.sqlite'' \<or> endswith (lower ref) ''.sqlite3''
                  \<or> endswith (lower ref) ''.db''
          then (case verify_sqlite_file w resolved s of (r, s') \<Rightarrow> (Inr r, s'))
          else if endswith (lower ref) ''.hdt''
          then (Inr (verify_hdt_file w resolved), s)
          else (Inr (verify_other_file w ref), s))"
  unfolding verify_asset_file_def Let_def hd_split_on ..

lemma endswith_lower:
  "lower suf = suf \<Longrightarrow> endswith (lower ref) suf = ci_suffix ref suf"
  by (simp add: endswith_def ci_suffix_def lower_def drop_map)

lemma lower_literals:
  "lower ''.parquet'' = ''.parquet''" "lower ''.sqlite'' = ''.sqlite''"
  "lower ''.sqlite3'' = ''.sqlite3''" "lower ''.db'' = ''.db''" "lower ''.hdt'' = ''.hdt''"
  by (simp_all add: lower_def py_lower_char_def py_isupper_def)

lemma ci_suffix_cong:
  assumes "lower ref = lower ref'"
  shows "ci_suffix ref suf = ci_suffix ref' suf"
proof -
  have len: "length ref = length ref'"
    using assms by (metis length_map lower_def)
  have "lower (drop n ref) = lower (drop n ref')" for n
    using assms by (simp add: lower_def drop_map [symmetric])
  then show ?thesis by (simp add: ci_suffix_def len)
qed

text \<open>
  Claim C8. The checker that \<open>verify_asset_file\<close> runs is the one the table gives for
  the first suffix, in the order \<open>.parquet\<close>, \<open>.sqlite\<close>, \<open>.sqlite3\<close>, \<open>.db\<close>,
  \<open>.hdt\<close>, that the asset reference ends with when case is ignored, and the generic
  checker when it ends with none of them; two references that differ only in case are
  dispatched alike.
\<close>

theorem dispatch_by_suffix:
  "verify_asset_file w ref brick s =
     (case asset_path w brick (takeWhile (\<lambda>c. c \<noteq> CHR '':'') ref) of
        Inl e \<Rightarrow> (Inl e, s)
      | Inr resolved \<Rightarrow>
         (case run_checker w (spec_dispatch ref) resolved ref s of (r, s') \<Rightarrow> (Inr r, s')))
   \<and> (lower ref = lower ref' \<longrightarrow> spec_dispatch ref = spec_dispatch ref')"
proof
  show "verify_asset_file w ref brick s =
     (case asset_path w brick (takeWhile (\<lambda>c. c \<noteq> CHR '':'') ref) of
        Inl e \<Rightarrow> (Inl e, s)
      | Inr resolved \<Rightarrow>
         (case run_checker w (spec_dispatch ref) resolved ref s of (r, s') \<Rightarrow> (Inr r, s')))"
    unfolding verify_asset_file_unfold
    by (simp add: spec_dispatch_def suffix_table_def run_checker_def endswith_lower lower_literals
        split: sum.splits)
  show "lower ref = lower ref' \<longrightarrow> spec_dispatch ref = spec_dispatch ref'"
  proof
    assume h: "lower ref = lower ref'"
    have "(\<lambda>(suf, k :: checker). ci_suffix ref suf) = (\<lambda>(suf, k). ci_suffix ref' suf)"
      by (simp add: ci_suffix_cong [OF h])
    then show "spec_dispatch ref = spec_dispatch ref'"
      by (simp add: spec_dispatch_def)
  qed
qed

theorem dispatch_by_suffix_witness:
  "lower ''data_PARQUET: /x/Data.PARQUET'' = lower ''DATA_parquet: /X/DATA.Parquet''
   \<and> spec_dispatch ''DATA_parquet: /X/DATA.Parquet'' = Columnar
   \<and> verify_asset_file dispatch_world ''data_PARQUET: /x/Data.PARQUET'' ''b'' s0
       = (Inr (True, ''Parquet file has 7 rows''), s0)"
proof -
  have h: "lower ''data_PARQUET: /x/Data.PARQUET'' = lower ''DATA_parquet: /X/DATA.Parquet''"
    by (simp add: lower_def py_lower_char_def py_isupper_def)
  have d: "spec_dispatch ''DATA_parquet: /X/DATA.Parquet'' = Columnar"
    by (simp add: spec_dispatch_def suffix_table_def ci_suffix_def lower_def py_lower_char_def
        py_isupper_def)
  have p: "asset_path dispatch_world ''b'' (takeWhile (\<lambda>c. c \<noteq> CHR '':'') ''data_PARQUET: /x/Data.PARQUET'')
             = Inr ''/mnt/bricks/data.db''"
    by (simp add: dispatch_world_def)
  have v: "verify_parquet_file dispatch_world ''/mnt/bricks/data.db'' = (True, ''Parquet file has 7 rows'')"
    by (simp add: verify_parquet_file_def dispatch_world_def str_nat.simps)
  from dispatch_by_suffix [of dispatch_world "''data_PARQUET: /x/Data.PARQUET''" "''b''" s0
      "''DATA_parquet: /X/DATA.Parquet''"] h d p v
  show ?thesis by (simp add: run_checker_def)
qed

text \<open>
  Claim C2. When the part of the asset reference before the first colon resolves to a
  path, the checker is chosen by the suffix of the lower-cased original reference; the
  Parquet, SQLite and HDT checkers are given the resolved path, and the generic checker is
  given the original reference.
\<close>

theorem checker_inputs:
  assumes "asset_path w brick (takeWhile (\<lambda>c. c \<noteq> CHR '':'') ref) = Inr resolved"
  shows "verify_asset_file w ref brick s =
     (if endswith (lower ref) ''.parquet''
      then (Inr (verify_parquet_file w resolved), s)
      else if endswith (lower ref) ''.sqlite'' \<or> endswith (lower ref) ''.sqlite3''
              \<or> endswith (lower ref) ''.db''
      then (case verify_sqlite_file w resolved s of (r, s') \<Rightarrow> (Inr r, s'))
      else if endswith (lower ref) ''.hdt''
      then (Inr (verify_hdt_file w resolved), s)
      else (Inr (verify_other_file w ref), s))"
  using assms by (simp add: verify_asset_file_unfold)

text \<open>
  The reference \<open>data_PARQUET: /x/Data.PARQUET\<close> resolves to a path that ends in \<open>.db\<close>
  and is still checked as Parquet, on the resolved path; the reference
  \<open>notes: /mnt/bricks/notes.txt\<close> goes to the generic checker unresolved, where
  \<open>getsize\<close> fails on it although the resolved file has 12 bytes.
\<close>

theorem checker_inputs_witness:
  "asset_path dispatch_world ''b'' (takeWhile (\<lambda>c. c \<noteq> CHR '':'') ''data_PARQUET: /x/Data.PARQUET'')
     = Inr ''/mnt/bricks/data.db''
   \<and> verify_asset_file dispatch_world ''data_PARQUET: /x/Data.PARQUET'' ''b'' s0
       = (Inr (verify_parquet_file dispatch_world ''/mnt/bricks/data.db''), s0)
   \<and> asset_path dispatch_world ''b'' (takeWhile (\<lambda>c. c \<noteq> CHR '':'') ''notes: /mnt/bricks/notes.txt'')
     = Inr ''/mnt/bricks/notes.txt''
   \<and> verify_asset_file dispatch_world ''notes: /mnt/bricks/notes.txt'' ''b'' s0
       = (Inr (verify_other_file dispatch_world ''notes: /mnt/bricks/notes.txt''), s0)
   \<and> verify_other_file dispatch_world ''notes: /mnt/bricks/notes.txt''
       = (False, ''Failed to check file: notes: /mnt/bricks/notes.txt'')
   \<and> verify_other_file dispatch_world ''/mnt/bricks/notes.txt''
       = (True, ''File exists and has size 12 bytes'')"
proof -
  have p1: "asset_path dispatch_world ''b'' (takeWhile (\<lambda>c. c \<noteq> CHR '':'') ''data_PARQUET: /x/Data.PARQUET'')
     = Inr ''/mnt/bricks/data.db''"
    by (simp add: dispatch_world_def)
  have p2: "asset_path dispatch_world ''b'' (takeWhile (\<lambda>c. c \<noteq> CHR '':'') ''notes: /mnt/bricks/notes.txt'')
     = Inr ''/mnt/bricks/notes.txt''"
    by (simp add: dispatch_world_def)
  have o: "verify_other_file dispatch_world ''notes: /mnt/bricks/notes.txt''
       = (False, ''Failed to check file: notes: /mnt/bricks/notes.txt'')"
    "verify_other_file dispatch_world ''/mnt/bricks/notes.txt'' = (True, ''File exists and has size 12 bytes'')"
    by (simp_all add: verify_other_file_def dispatch_world_def str_nat.simps)
  from checker_inputs [OF p1, of s0] checker_inputs [OF p2, of s0] p1 p2 o
  show ?thesis
    by (simp add: lower_def py_lower_char_def py_isupper_def endswith_def)
qed

section \<open>Exceptions that escape\<close>

text \<open>
  \<open>verify_asset_file\<close> raises exactly when the lookup of line 128 raises: that call is
  outside every \<open>try\<close>, and all four checkers catch what they raise.
\<close>

lemma verify_asset_file_raises:
  "(\<exists>e s'. verify_asset_file w ref b s = (Inl e, s'))
     \<longleftrightarrow> (\<exists>e. asset_path w b (takeWhile (\<lambda>c. c \<noteq> CHR '':'') ref) = Inl e)"
  by (auto simp: verify_asset_file_def Let_def hd_split_on split: sum.splits prod.splits)

text \<open>
  In \<open>crash_world\<close> the catalog exists and names two bricks, the lookup command lists
  \<open>data_parquet: /d/data.parquet\<close> for each, and \<open>bb.assets\<close> has no attribute
  \<open>data_parquet\<close>.
\<close>

lemma crash_catalog: "catalog crash_world = Some ''alpha\<newline>beta\<newline>''"
  by (simp add: crash_world_def)

lemma crash_names: "read_brick_names ''alpha\<newline>beta\<newline>'' = [''alpha'', ''beta'']"
  by (simp add: read_brick_names_def py_simps)

lemma crash_assets: "get_brick_assets crash_world b = Inr (True, [''data_parquet: /d/data.parquet''])"
  by (simp add: get_brick_assets_def run_command_def crash_world_def py_simps Let_def)

lemma crash_asset:
  "verify_asset_file crash_world ''data_parquet: /d/data.parquet'' b s = (Inl (Exn ''AttributeError'' ''data_parquet''), s)"
  by (simp add: verify_asset_file_def crash_world_def demo_world_def Let_def)

lemma crash_brick:
  "verify_brick crash_world b s =
     (Inl (Exn ''AttributeError'' ''data_parquet''), print (Found 1) (print (Verifying b) s))"
  by (simp add: verify_brick_def crash_assets crash_asset Let_def)

lemma clear_log:
  "(if failures_txt s \<noteq> None then s\<lparr>failures_txt := None\<rparr> else s) = s\<lparr>failures_txt := None\<rparr>"
  by (cases s) auto

lemma crash_main:
  "main crash_world s0 =
     \<lparr>ending = Uncaught (Exn ''AttributeError'' ''data_parquet''), success_count = 0,
      failure_count = 0,
      final = print (Found 1) (print (Verifying ''alpha'') (print (Starting 2) s0))\<rparr>"
  unfolding main_def Let_def clear_log
  by (simp add: crash_catalog crash_names crash_brick s0_def print_def)

text \<open>
  Claim C1. Verifying a single asset is claimed never to let an exception escape. In
  \<open>crash_world\<close> the \<open>AttributeError\<close> of the lookup leaves \<open>verify_asset_file\<close>, and
  it ends the run although the catalog is present.
\<close>

theorem resolver_exception_escapes:
  "verify_asset_file crash_world ''data_parquet: /d/data.parquet'' ''alpha'' s0
     = (Inl (Exn ''AttributeError'' ''data_parquet''), s0)
   \<and> catalog crash_world = Some ''alpha\<newline>beta\<newline>''
   \<and> ending (main crash_world s0) = Uncaught (Exn ''AttributeError'' ''data_parquet'')"
  by (simp add: crash_asset crash_catalog crash_main)

section \<open>The SQLite connection\<close>

text \<open>
  The connection stays open exactly when an exception is raised after
  \<open>sqlite3.connect\<close> has returned: by the \<open>sqlite_master\<close> query or by a count query.
\<close>

lemma sqlite_handles:
  "open_handles (snd (verify_sqlite_file w p s)) =
     open_handles s +
       (case sqlite_connect w p of
          Inl e \<Rightarrow> 0
        | Inr db \<Rightarrow>
            (case table_names db of
               Inl e \<Rightarrow> 1
             | Inr tables \<Rightarrow> (case count_tables db tables 0 of Inl e \<Rightarrow> 1 | Inr n \<Rightarrow> 0)))"
  by (auto simp: verify_sqlite_file_def conn_open_def conn_close_def Let_def split: sum.splits)

text \<open>
  Claim C3. The handle is claimed to be closed on every exit path, the exception path
  included. On a file that is not a database \<open>connect\<close> succeeds, the first query
  raises, and the verifier returns with the connection still open.
\<close>

theorem sqlite_handle_left_open:
  "verify_sqlite_file notdb_world ''/d/notes.db'' s0
     = ((False, ''Failed to access SQLite file: file is not a database''),
        s0\<lparr>open_handles := 1\<rparr>)"
  by (simp add: verify_sqlite_file_def notdb_world_def not_a_database_def conn_open_def
      sqlite_failed_def s0_def Let_def)

section \<open>The failure log\<close>

lemma print_frame [simp]:
  "failures_txt (print ev s) = failures_txt s" "fail_dir (print ev s) = fail_dir s"
  "open_handles (print ev s) = open_handles s" "stdout (print ev s) = stdout s @ [ev]"
  "stderr (print ev s) = stderr s"
  by (simp_all add: print_def)

lemma record_failure_effect [simp]:
  "failures_txt (record_failure b reason s) = Some (log_text s @ b @ [LF])"
  "fail_dir (record_failure b reason s)"
  "open_handles (record_failure b reason s) = open_handles s"
  by (simp_all add: record_failure_def log_text_def)

lemma verify_sqlite_file_frame:
  assumes "verify_sqlite_file w p s = (r, s')"
  shows "failures_txt s' = failures_txt s \<and> fail_dir s' = fail_dir s \<and> stdout s' = stdout s"
  using assms
  by (auto simp: verify_sqlite_file_def conn_open_def conn_close_def Let_def
      split: sum.splits if_splits)

lemma verify_asset_file_frame:
  assumes "verify_asset_file w a b s = (r, s')"
  shows "failures_txt s' = failures_txt s \<and> fail_dir s' = fail_dir s \<and> stdout s' = stdout s"
  using assms verify_sqlite_file_frame
  by (fastforce simp: verify_asset_file_def Let_def split: sum.splits if_splits prod.splits)

lemma verify_assets_log:
  "verify_assets w b assets s = (r, s') \<Longrightarrow>
     (if r = Inr False
      then failures_txt s' = Some (log_text s @ b @ [LF]) \<and> fail_dir s'
      else failures_txt s' = failures_txt s \<and> fail_dir s' = fail_dir s)"
proof (induction assets arbitrary: s)
  case Nil
  then show ?case by auto
next
  case (Cons a rest)
  obtain r1 s1 where va: "verify_asset_file w a b s = (r1, s1)"
    by (cases "verify_asset_file w a b s")
  note fr = verify_asset_file_frame [OF va]
  show ?case
  proof (cases r1)
    case (Inl e)
    with Cons.prems va fr show ?thesis by auto
  next
    case (Inr res)
    obtain ok msg where res: "res = (ok, msg)" by (cases res)
    show ?thesis
    proof (cases ok)
      case False
      with Cons.prems va Inr res fr show ?thesis
        by (auto simp: log_text_def)
    next
      case True
      with Cons.prems va Inr res
      have "verify_assets w b rest (print (AssetOk (basename a) msg) s1) = (r, s')"
        by simp
      from Cons.IH [OF this] fr show ?thesis
        by (auto simp: log_text_def)
    qed
  qed
qed

lemma verify_brick_log:
  assumes "verify_brick w b s = (r, s')"
  shows "if r = Inr False
      then failures_txt s' = Some (log_text s @ b @ [LF]) \<and> fail_dir s'
      else failures_txt s' = failures_txt s \<and> fail_dir s' = fail_dir s"
proof (cases "get_brick_assets w b")
  case (Inl e)
  with assms show ?thesis by (auto simp: verify_brick_def Let_def)
next
  case (Inr res)
  obtain has assets where res: "res = (has, assets)" by (cases res)
  show ?thesis
  proof (cases has)
    case False
    with assms Inr res show ?thesis
      by (auto simp: verify_brick_def Let_def log_text_def)
  next
    case True
    obtain r2 s2 where va:
      "verify_assets w b assets (print (Found (length assets)) (print (Verifying b) s)) = (r2, s2)"
      by (cases "verify_assets w b assets (print (Found (length assets)) (print (Verifying b) s))")
    from verify_assets_log [OF va]
    have l: "if r2 = Inr False
      then failures_txt s2 = Some (log_text s @ b @ [LF]) \<and> fail_dir s2
      else failures_txt s2 = failures_txt s \<and> fail_dir s2 = fail_dir s"
      by (simp add: log_text_def)
    from assms Inr res True va
    have "(r, s') = (case (r2, s2) of (Inr True, s2) \<Rightarrow> (Inr True, print (Passed b) s2)
                       | (r, s2) \<Rightarrow> (r, s2))"
      by (simp add: verify_brick_def Let_def)
    with l show ?thesis
      by (auto split: sum.splits bool.splits if_splits)
  qed
qed

lemma verify_assets_append:
  "verify_assets w b pre s = (Inr True, s1) \<Longrightarrow>
   verify_assets w b (pre @ rest) s = verify_assets w b rest s1"
  by (induction pre arbitrary: s) (auto split: sum.splits prod.splits if_splits)

lemma run_bricks_log:
  "run_bricks w names sc fc s = (e, sc', fc', s') \<Longrightarrow>
     \<exists>fs. failures_txt s' = (if fs = [] then failures_txt s else Some (log_text s @ joined fs))
        \<and> (fs = [] \<longrightarrow> fail_dir s' = fail_dir s)
        \<and> fc' = fc + length fs
        \<and> (\<forall>b. count_list fs b \<le> count_list names b)
        \<and> sc \<le> sc'
        \<and> (e = None \<longrightarrow> (sc' - sc) + length fs = length names)"
proof (induction names arbitrary: sc fc s)
  case Nil
  then show ?case by (intro exI [of _ "[]"]) auto
next
  case (Cons b rest)
  obtain r1 s1 where vb: "verify_brick w b s = (r1, s1)"
    by (cases "verify_brick w b s")
  note lg = verify_brick_log [OF vb]
  show ?case
  proof (cases r1)
    case (Inl ex)
    with Cons.prems vb lg show ?thesis
      by (intro exI [of _ "[]"]) auto
  next
    case (Inr ok)
    show ?thesis
    proof (cases ok)
      case True
      with Cons.prems vb Inr have rb: "run_bricks w rest (sc + 1) fc s1 = (e, sc', fc', s')"
        by simp
      from Cons.IH [OF rb] obtain fs where fs:
        "failures_txt s' = (if fs = [] then failures_txt s1 else Some (log_text s1 @ joined fs))"
        "fs = [] \<longrightarrow> fail_dir s' = fail_dir s1"
        "fc' = fc + length fs"
        "\<forall>b. count_list fs b \<le> count_list rest b"
        "sc + 1 \<le> sc'"
        "e = None \<longrightarrow> (sc' - (sc + 1)) + length fs = length rest"
        by blast
      from lg Inr True have same: "failures_txt s1 = failures_txt s" "fail_dir s1 = fail_dir s"
        by auto
      show ?thesis
      proof (intro exI [of _ fs] conjI)
        show "failures_txt s' = (if fs = [] then failures_txt s else Some (log_text s @ joined fs))"
          using fs(1) same by (simp add: log_text_def)
        show "fs = [] \<longrightarrow> fail_dir s' = fail_dir s" using fs(2) same by simp
        show "fc' = fc + length fs" by (rule fs(3))
        show "\<forall>x. count_list fs x \<le> count_list (b # rest) x"
          using fs(4) by (auto intro: le_SucI)
        show "sc \<le> sc'" using fs(5) by simp
        show "e = None \<longrightarrow> (sc' - sc) + length fs = length (b # rest)"
          using fs(5,6) by auto
      qed
    next
      case False
      with Cons.prems vb Inr have rb: "run_bricks w rest sc (fc + 1) s1 = (e, sc', fc', s')"
        by simp
      from Cons.IH [OF rb] obtain fs where fs:
        "failures_txt s' = (if fs = [] then failures_txt s1 else Some (log_text s1 @ joined fs))"
        "fs = [] \<longrightarrow> fail_dir s' = fail_dir s1"
        "fc' = fc + 1 + length fs"
        "\<forall>b. count_list fs b \<le> count_list rest b"
        "sc \<le> sc'"
        "e = None \<longrightarrow> (sc' - sc) + length fs = length rest"
        by blast
      from lg Inr False have app: "failures_txt s1 = Some (log_text s @ b @ [LF])"
        by auto
      then have lt: "log_text s1 = log_text s @ b @ [LF]"
        by (simp add: log_text_def)
      show ?thesis
      proof (intro exI [of _ "b # fs"] conjI)
        show "failures_txt s' =
              (if b # fs = [] then failures_txt s else Some (log_text s @ joined (b # fs)))"
          using fs(1) app lt by (simp add: joined_def)
        show "b # fs = [] \<longrightarrow> fail_dir s' = fail_dir s" by simp
        show "fc' = fc + length (b # fs)" using fs(3) by simp
        show "\<forall>x. count_list (b # fs) x \<le> count_list (b # rest) x"
          using fs(4) by auto
        show "sc \<le> sc'" by (rule fs(5))
        show "e = None \<longrightarrow> (sc' - sc) + length (b # fs) = length (b # rest)"
          using fs(6) by auto
      qed
    qed
  qed
qed

lemma recorded_joined:
  "\<forall>b\<in>set fs. LF \<notin> set b \<Longrightarrow>
   map (takeWhile (\<lambda>c. c \<noteq> LF)) (file_lines (joined fs)) = fs"
proof (induction fs)
  case Nil
  then show ?case by (simp add: joined_def)
next
  case (Cons b fs)
  then have b: "LF \<notin> set b" by simp
  have "joined (b # fs) = b @ LF # joined fs"
    by (simp add: joined_def)
  moreover have "takeWhile (\<lambda>c. c \<noteq> LF) (b @ [LF]) = b"
    using b by (induction b) auto
  ultimately show ?case using Cons b by (simp add: file_lines_line)
qed

subsection \<open>Bricks verified, read from standard output\<close>

lemma verified_append: "verified (xs @ ys) = verified xs @ verified ys"
  by (induction xs rule: verified.induct) auto

lemma verify_assets_verified:
  "verify_assets w b assets s = (r, s') \<Longrightarrow> verified (stdout s') = verified (stdout s)"
proof (induction assets arbitrary: s)
  case Nil
  then show ?case by auto
next
  case (Cons a rest)
  obtain r1 s1 where va: "verify_asset_file w a b s = (r1, s1)"
    by (cases "verify_asset_file w a b s")
  note fr = verify_asset_file_frame [OF va]
  show ?case
  proof (cases r1)
    case (Inl e)
    with Cons.prems va fr show ?thesis by auto
  next
    case (Inr res)
    obtain ok msg where res: "res = (ok, msg)" by (cases res)
    show ?thesis
    proof (cases ok)
      case False
      with Cons.prems va Inr res fr show ?thesis
        by (auto simp: record_failure_def verified_append)
    next
      case True
      with Cons.prems va Inr res
      have "verify_assets w b rest (print (AssetOk (basename a) msg) s1) = (r, s')"
        by simp
      from Cons.IH [OF this] fr show ?thesis
        by (simp add: verified_append)
    qed
  qed
qed

lemma verify_brick_verified:
  assumes "verify_brick w b s = (r, s')"
  shows "verified (stdout s') = verified (stdout s) @ [b]"
proof (cases "get_brick_assets w b")
  case (Inl e)
  with assms show ?thesis by (auto simp: verify_brick_def Let_def verified_append)
next
  case (Inr res)
  obtain has assets where res: "res = (has, assets)" by (cases res)
  show ?thesis
  proof (cases has)
    case False
    with assms Inr res show ?thesis
      by (auto simp: verify_brick_def Let_def record_failure_def verified_append)
  next
    case True
    obtain r2 s2 where va:
      "verify_assets w b assets (print (Found (length assets)) (print (Verifying b) s)) = (r2, s2)"
      by (cases "verify_assets w b assets (print (Found (length assets)) (print (Verifying b) s))")
    from verify_assets_verified [OF va]
    have l: "verified (stdout s2) = verified (stdout s) @ [b]"
      by (simp add: verified_append)
    from assms Inr res True va
    have "(r, s') = (case (r2, s2) of (Inr True, s2) \<Rightarrow> (Inr True, print (Passed b) s2)
                       | (r, s2) \<Rightarrow> (r, s2))"
      by (simp add: verify_brick_def Let_def)
    with l show ?thesis
      by (auto split: sum.splits bool.splits if_splits simp: verified_append)
  qed
qed

lemma run_bricks_verified:
  "run_bricks w names sc fc s = (e, sc', fc', s') \<Longrightarrow>
     verified (stdout s') = verified (stdout s)
        @ take ((sc' - sc) + (fc' - fc) + (case e of None \<Rightarrow> 0 | Some x \<Rightarrow> 1)) names
     \<and> sc \<le> sc' \<and> fc \<le> fc'"
proof (induction names arbitrary: sc fc s)
  case Nil
  then show ?case by auto
next
  case (Cons b rest)
  obtain r1 s1 where vb: "verify_brick w b s = (r1, s1)"
    by (cases "verify_brick w b s")
  note vv = verify_brick_verified [OF vb]
  show ?case
  proof (cases r1)
    case (Inl ex)
    with Cons.prems vb vv show ?thesis by auto
  next
    case (Inr ok)
    show ?thesis
    proof (cases ok)
      case True
      with Cons.prems vb Inr have rb: "run_bricks w rest (sc + 1) fc s1 = (e, sc', fc', s')"
        by simp
      define n where "n = (sc' - (sc + 1)) + (fc' - fc) + (case e of None \<Rightarrow> 0 | Some x \<Rightarrow> 1)"
      from Cons.IH [OF rb]
      have ih: "verified (stdout s') = verified (stdout s1) @ take n rest"
        "sc + 1 \<le> sc'" "fc \<le> fc'"
        by (simp_all add: n_def)
      have "(sc' - sc) + (fc' - fc) + (case e of None \<Rightarrow> 0 | Some x \<Rightarrow> 1) = Suc n"
        using ih(2) by (simp add: n_def)
      with ih vv show ?thesis by simp
    next
      case False
      with Cons.prems vb Inr have rb: "run_bricks w rest sc (fc + 1) s1 = (e, sc', fc', s')"
        by simp
      define n where "n = (sc' - sc) + (fc' - (fc + 1)) + (case e of None \<Rightarrow> 0 | Some x \<Rightarrow> 1)"
      from Cons.IH [OF rb]
      have ih: "verified (stdout s') = verified (stdout s1) @ take n rest"
        "sc \<le> sc'" "fc + 1 \<le> fc'"
        by (simp_all add: n_def)
      have "(sc' - sc) + (fc' - fc) + (case e of None \<Rightarrow> 0 | Some x \<Rightarrow> 1) = Suc n"
        using ih(3) by (simp add: n_def)
      with ih vv show ?thesis by simp
    qed
  qed
qed

subsection \<open>The run\<close>

lemma main_present:
  assumes "catalog w = Some content"
    and "run_bricks w (read_brick_names content) 0 0
           (print (Starting (length (read_brick_names content))) (s\<lparr>failures_txt := None\<rparr>))
         = (e, sc, fc, s3)"
  shows "success_count (main w s) = sc" "failure_count (main w s) = fc"
    "failures_txt (final (main w s)) = failures_txt s3"
    "fail_dir (final (main w s)) = fail_dir s3"
    "verified (stdout (final (main w s))) = verified (stdout s3)"
    "ending (main w s) = (case e of Some x \<Rightarrow> Uncaught x | None \<Rightarrow> if 0 < fc then SysExit 1 else Returned)"
  using assms unfolding main_def Let_def clear_log
  by (auto simp: verified_append split: option.splits)

lemma run_recorded:
  assumes "catalog w = Some content"
  shows "\<exists>fs. failures_txt (final (main w s)) = (if fs = [] then None else Some (joined fs))
       \<and> failure_count (main w s) = length fs
       \<and> (fs = [] \<longrightarrow> fail_dir (final (main w s)) = fail_dir s)
       \<and> (\<forall>b. count_list fs b \<le> count_list (read_brick_names content) b)"
proof -
  obtain e sc fc s3 where rb:
    "run_bricks w (read_brick_names content) 0 0
       (print (Starting (length (read_brick_names content))) (s\<lparr>failures_txt := None\<rparr>))
     = (e, sc, fc, s3)"
    using prod_cases4 by blast
  note m = main_present [OF assms rb]
  define s2 where "s2 = print (Starting (length (read_brick_names content))) (s\<lparr>failures_txt := None\<rparr>)"
  have s2: "failures_txt s2 = None" "log_text s2 = []" "fail_dir s2 = fail_dir s"
    by (simp_all add: s2_def log_text_def)
  from run_bricks_log [OF rb [folded s2_def]] obtain fs where fs:
    "failures_txt s3 = (if fs = [] then failures_txt s2 else Some (log_text s2 @ joined fs))"
    "fs = [] \<longrightarrow> fail_dir s3 = fail_dir s2"
    "fc = 0 + length fs"
    "\<forall>b. count_list fs b \<le> count_list (read_brick_names content) b"
    by blast
  show ?thesis
  proof (intro exI [of _ fs] conjI)
    show "failures_txt (final (main w s)) = (if fs = [] then None else Some (joined fs))"
      using fs(1) s2 m(3) by simp
    show "failure_count (main w s) = length fs" using fs(3) m(2) by simp
    show "fs = [] \<longrightarrow> fail_dir (final (main w s)) = fail_dir s"
      using fs(2) s2 m(4) by simp
    show "\<forall>b. count_list fs b \<le> count_list (read_brick_names content) b" by (rule fs(4))
  qed
qed

lemma recorded_le_catalog:
  assumes "catalog w = Some content"
  shows "count_list (recorded (final (main w s))) x \<le> count_list (read_brick_names content) x"
proof -
  from run_recorded [OF assms, of s] obtain fs where fs:
    "failures_txt (final (main w s)) = (if fs = [] then None else Some (joined fs))"
    "\<forall>b. count_list fs b \<le> count_list (read_brick_names content) b"
    by blast
  have "\<forall>b\<in>set fs. LF \<notin> set b"
  proof
    fix b assume "b \<in> set fs"
    then have "count_list fs b \<noteq> 0" by (simp add: count_list_0_iff)
    with fs(2) have "count_list (read_brick_names content) b \<noteq> 0"
      by (metis le_zero_eq)
    then have "b \<in> set (read_brick_names content)" by (simp add: count_list_0_iff)
    then show "LF \<notin> set b" by (rule brick_names_no_LF)
  qed
  then have "recorded (final (main w s)) = fs"
    using fs(1) by (simp add: recorded_def recorded_joined)
  with fs(2) show ?thesis by simp
qed

subsection \<open>The worlds evaluated\<close>

lemma demo_catalog: "catalog demo_world = Some ''alpha\<newline>alpha\<newline>''"
  by (simp add: demo_world_def)

lemma demo_names:
  "read_brick_names ''alpha\<newline>alpha\<newline>'' = [''alpha'', ''alpha'']"
  by (simp add: read_brick_names_def py_simps)

lemma demo_assets:
  "get_brick_assets demo_world b
     = Inr (True, [''one_parquet: /d/one.parquet'', ''two_db: /d/two.db'', ''three_hdt: /d/three.hdt''])"
  by (simp add: get_brick_assets_def run_command_def demo_world_def py_simps Let_def)

lemma demo_asset1:
  "verify_asset_file demo_world ''one_parquet: /d/one.parquet'' b s
     = (Inr (True, ''Parquet file has 5 rows''), s)"
  by (simp add: verify_asset_file_def verify_parquet_file_def demo_world_def py_simps Let_def str_nat.simps)

lemma demo_asset2:
  "verify_asset_file demo_world ''two_db: /d/two.db'' b s
     = (Inr (False, ''SQLite file has no tables''), s)"
  by (simp add: verify_asset_file_def verify_sqlite_file_def demo_world_def py_simps Let_def
      no_tables_def conn_open_def conn_close_def)

lemma demo_brick:
  "verify_brick demo_world b s =
     (Inr False, record_failure b
        ''Asset verification failed for two_db: /d/two.db: SQLite file has no tables''
        (print (AssetOk ''one.parquet'' ''Parquet file has 5 rows'')
           (print (Found 3) (print (Verifying b) s))))"
  by (simp add: verify_brick_def demo_assets demo_asset1 demo_asset2 Let_def numeral_3_eq_3)

lemma demo_main_log:
  "failures_txt (final (main demo_world s0)) = Some ''alpha\<newline>alpha\<newline>''"
  unfolding main_def Let_def clear_log
  by (simp add: demo_catalog demo_names demo_brick record_failure_def print_def s0_def)

lemma demo_recorded:
  "recorded (final (main demo_world s0)) = [''alpha'', ''alpha'']"
  by (simp add: recorded_def demo_main_log)

lemma ok_catalog:
  "catalog ok_world = Some ''# checked nightly\<newline>\<newline>alpha\<newline>  #beta \<newline>''"
  by (simp add: ok_world_def)

lemma ok_names:
  "read_brick_names ''# checked nightly\<newline>\<newline>alpha\<newline>  #beta \<newline>''
     = [''alpha'', ''#beta'']"
  by (simp add: read_brick_names_def py_simps)

lemma ok_assets: "get_brick_assets ok_world b = Inr (True, [''one_parquet: /d/one.parquet''])"
  by (simp add: get_brick_assets_def run_command_def ok_world_def py_simps Let_def)

lemma ok_asset:
  "verify_asset_file ok_world ''one_parquet: /d/one.parquet'' b s
     = (Inr (True, ''Parquet file has 5 rows''), s)"
  by (simp add: verify_asset_file_def verify_parquet_file_def ok_world_def demo_world_def py_simps
      Let_def str_nat.simps)

lemma ok_brick:
  "verify_brick ok_world b s =
     (Inr True, print (Passed b) (print (AssetOk ''one.parquet'' ''Parquet file has 5 rows'')
                  (print (Found 1) (print (Verifying b) s))))"
  by (simp add: verify_brick_def ok_assets ok_asset Let_def)

lemma ok_main:
  "ending (main ok_world s) = Returned" "success_count (main ok_world s) = 2"
  "failure_count (main ok_world s) = 0"
  "verified (stdout (final (main ok_world s))) = verified (stdout s) @ [''alpha'', ''#beta'']"
  unfolding main_def Let_def clear_log
  by (simp_all add: ok_catalog ok_names ok_brick verified_append)

section \<open>Records per brick\<close>

text \<open>
  Claim C4, as stated: every brick is in the failure log at most once per run. It fails
  for a catalog that names a brick twice: \<open>alpha\<close> fails both times and is recorded twice.
\<close>

theorem duplicate_entry_recorded_twice:
  "\<not> count_list (recorded (final (main demo_world s0))) ''alpha'' \<le> 1"
  by (simp add: demo_recorded)

text \<open>
  Claim C4, amended. One verification of a brick appends exactly one record when it
  returns false and none otherwise; when the assets before \<open>a\<close> pass and \<open>a\<close> fails, the
  verification records that failure and returns false whatever assets follow; and over a
  run with a catalog, a name is in the failure log at most as often as it is in the
  catalog.
\<close>

theorem one_record_per_verification:
  "(verify_brick w b s = (r, s') \<longrightarrow>
      failures_txt s' = (if r = Inr False then Some (log_text s @ b @ [LF]) else failures_txt s))
   \<and> (verify_assets w b pre s = (Inr True, s1) \<and> verify_asset_file w a b s1 = (Inr (False, m), s2)
        \<longrightarrow> verify_assets w b (pre @ a # post) s
            = (Inr False,
               record_failure b (''Asset verification failed for '' @ a @ '': '' @ m) s2))
   \<and> (catalog w = Some content \<longrightarrow>
        count_list (recorded (final (main w s))) x \<le> count_list (read_brick_names content) x)"
proof (intro conjI impI)
  assume "verify_brick w b s = (r, s')"
  from verify_brick_log [OF this]
  show "failures_txt s' = (if r = Inr False then Some (log_text s @ b @ [LF]) else failures_txt s)"
    by (simp split: if_splits)
next
  assume "verify_assets w b pre s = (Inr True, s1) \<and> verify_asset_file w a b s1 = (Inr (False, m), s2)"
  then show "verify_assets w b (pre @ a # post) s
            = (Inr False,
               record_failure b (''Asset verification failed for '' @ a @ '': '' @ m) s2)"
    by (simp add: verify_assets_append)
next
  assume "catalog w = Some content"
  then show "count_list (recorded (final (main w s))) x \<le> count_list (read_brick_names content) x"
    by (rule recorded_le_catalog)
qed

text \<open>
  In \<open>demo_world\<close> the first asset passes, the second has no tables, and the third, whose
  lookup would raise, is never reached.
\<close>

theorem one_record_per_verification_witness:
  "verify_brick demo_world ''alpha'' s0
     = (Inr False, record_failure ''alpha''
        ''Asset verification failed for two_db: /d/two.db: SQLite file has no tables''
        (print (AssetOk ''one.parquet'' ''Parquet file has 5 rows'')
           (print (Found 3) (print (Verifying ''alpha'') s0))))
   \<and> failures_txt (record_failure ''alpha''
        ''Asset verification failed for two_db: /d/two.db: SQLite file has no tables''
        (print (AssetOk ''one.parquet'' ''Parquet file has 5 rows'')
           (print (Found 3) (print (Verifying ''alpha'') s0)))) = Some ''alpha\<newline>''
   \<and> verify_assets demo_world ''alpha'' [''one_parquet: /d/one.parquet''] s0
       = (Inr True, print (AssetOk ''one.parquet'' ''Parquet file has 5 rows'') s0)
   \<and> verify_asset_file demo_world ''two_db: /d/two.db'' ''alpha''
         (print (AssetOk ''one.parquet'' ''Parquet file has 5 rows'') s0)
       = (Inr (False, ''SQLite file has no tables''),
          print (AssetOk ''one.parquet'' ''Parquet file has 5 rows'') s0)
   \<and> verify_assets demo_world ''alpha''
         [''one_parquet: /d/one.parquet'', ''two_db: /d/two.db'', ''three_hdt: /d/three.hdt''] s0
       = (Inr False, record_failure ''alpha''
            ''Asset verification failed for two_db: /d/two.db: SQLite file has no tables''
            (print (AssetOk ''one.parquet'' ''Parquet file has 5 rows'') s0))
   \<and> catalog demo_world = Some ''alpha\<newline>alpha\<newline>''
   \<and> count_list (recorded (final (main demo_world s0))) ''alpha'' = 2
   \<and> count_list (read_brick_names ''alpha\<newline>alpha\<newline>'') ''alpha'' = 2"
proof -
  let ?s1 = "print (AssetOk ''one.parquet'' ''Parquet file has 5 rows'') s0"
  have pre: "verify_assets demo_world ''alpha'' [''one_parquet: /d/one.parquet''] s0 = (Inr True, ?s1)"
    by (simp add: demo_asset1)
  from one_record_per_verification
    [where w = demo_world and b = "''alpha''" and s = s0 and r = "Inr False"
       and s' = "record_failure ''alpha''
        ''Asset verification failed for two_db: /d/two.db: SQLite file has no tables''
        (print (AssetOk ''one.parquet'' ''Parquet file has 5 rows'')
           (print (Found 3) (print (Verifying ''alpha'') s0)))"
       and pre = "[''one_parquet: /d/one.parquet'']" and ?s1.0 = ?s1
       and a = "''two_db: /d/two.db''" and m = "''SQLite file has no tables''" and ?s2.0 = ?s1
       and post = "[''three_hdt: /d/three.hdt'']"
       and content = "''alpha\<newline>alpha\<newline>''" and x = "''alpha''"]
    pre demo_brick [of "''alpha''" s0] demo_asset2 [of "''alpha''" ?s1] demo_catalog demo_names
    demo_recorded
  show ?thesis
    by (simp add: log_text_def s0_def)
qed

section \<open>Catalog lines\<close>

text \<open>
  Claim C5. The brick names are the stripped lines of the catalog, without the lines that
  are empty when stripped and the lines that start with \<open>#\<close>; the run starts the
  verification of these names in this order, of all of them unless an exception ends it.
\<close>

theorem catalog_lines_processed:
  "read_brick_names content
     = map strip (filter (\<lambda>line. \<not> (strip line = [] \<or> startswith line ''#''))
                    (file_lines (universal_newlines False content)))
   \<and> (catalog w = Some content \<longrightarrow>
        (\<exists>k. verified (stdout (final (main w s)))
               = verified (stdout s) @ take k (read_brick_names content))
        \<and> ((\<forall>e. ending (main w s) \<noteq> Uncaught e) \<longrightarrow>
             verified (stdout (final (main w s))) = verified (stdout s) @ read_brick_names content))"
proof (intro conjI impI)
  show "read_brick_names content
     = map strip (filter (\<lambda>line. \<not> (strip line = [] \<or> startswith line ''#''))
                    (file_lines (universal_newlines False content)))"
    by (simp add: read_brick_names_def brick_names_eq)
next
  assume c: "catalog w = Some content"
  obtain e sc fc s3 where rb:
    "run_bricks w (read_brick_names content) 0 0
       (print (Starting (length (read_brick_names content))) (s\<lparr>failures_txt := None\<rparr>))
     = (e, sc, fc, s3)"
    using prod_cases4 by blast
  note m = main_present [OF c rb]
  from run_bricks_verified [OF rb]
  have v: "verified (stdout (final (main w s))) = verified (stdout s)
        @ take (sc + fc + (case e of None \<Rightarrow> 0 | Some x \<Rightarrow> 1)) (read_brick_names content)"
    using m(5) by (simp add: verified_append)
  then show "\<exists>k. verified (stdout (final (main w s)))
               = verified (stdout s) @ take k (read_brick_names content)" ..
  assume "\<forall>e. ending (main w s) \<noteq> Uncaught e"
  with m(6) have "e = None" by (cases e) auto
  moreover from this run_bricks_log [OF rb] have "sc + fc = length (read_brick_names content)"
    by auto
  ultimately show "verified (stdout (final (main w s))) = verified (stdout s) @ read_brick_names content"
    using v by simp
qed

text \<open>
  A comment, an empty line, a name, and a line whose \<open>#\<close> comes after two spaces: that
  line does not start with \<open>#\<close> and is the brick \<open>#beta\<close>.
\<close>

theorem catalog_lines_processed_witness:
  "catalog ok_world = Some ''# checked nightly\<newline>\<newline>alpha\<newline>  #beta \<newline>''
   \<and> read_brick_names ''# checked nightly\<newline>\<newline>alpha\<newline>  #beta \<newline>''
       = [''alpha'', ''#beta'']
   \<and> ending (main ok_world s0) = Returned
   \<and> verified (stdout (final (main ok_world s0))) = [''alpha'', ''#beta'']"
  using catalog_lines_processed
    [of "''# checked nightly\<newline>\<newline>alpha\<newline>  #beta \<newline>''" ok_world s0]
    ok_catalog ok_names ok_main(1) [of s0]
  by (simp add: s0_def)

section \<open>Counts and exit status\<close>

text \<open>
  A run that no exception ends counts every name once.
\<close>

lemma counts_when_completed:
  assumes "catalog w = Some content" and "\<forall>e. ending (main w s) \<noteq> Uncaught e"
  shows "success_count (main w s) + failure_count (main w s) = length (read_brick_names content)"
proof -
  obtain e sc fc s3 where rb:
    "run_bricks w (read_brick_names content) 0 0
       (print (Starting (length (read_brick_names content))) (s\<lparr>failures_txt := None\<rparr>))
     = (e, sc, fc, s3)"
    using prod_cases4 by blast
  note m = main_present [OF assms(1) rb]
  from assms(2) m(6) have "e = None" by (cases e) auto
  with run_bricks_log [OF rb] m(1,2) show ?thesis by auto
qed

text \<open>
  Claim C6. Every brick name of a present catalog is claimed to be counted once. In
  \<open>crash_world\<close> the catalog names two bricks and the run ends with both counters at 0.
\<close>

theorem crash_leaves_bricks_uncounted:
  "catalog crash_world = Some ''alpha\<newline>beta\<newline>''
   \<and> length (read_brick_names ''alpha\<newline>beta\<newline>'') = 2
   \<and> success_count (main crash_world s0) + failure_count (main crash_world s0) = 0"
  by (simp add: crash_catalog crash_names crash_main)

text \<open>
  The exit status is 0 exactly when the catalog is present, no exception ends the run
  and the failure count is 0, and it is 1 otherwise.
\<close>

lemma exit_status_main:
  "exit_status (ending (main w s)) =
     (if catalog w \<noteq> None \<and> (\<forall>e. ending (main w s) \<noteq> Uncaught e) \<and> failure_count (main w s) = 0
      then 0 else 1)"
proof (cases "catalog w")
  case None
  then show ?thesis by (simp add: main_def)
next
  case (Some content)
  obtain e sc fc s3 where rb:
    "run_bricks w (read_brick_names content) 0 0
       (print (Starting (length (read_brick_names content))) (s\<lparr>failures_txt := None\<rparr>))
     = (e, sc, fc, s3)"
    using prod_cases4 by blast
  note m = main_present [OF Some rb]
  show ?thesis using Some m(2,6) by (cases e) auto
qed

text \<open>
  Claim C9. The exit status is claimed to be 0 exactly when the failure count is 0. In
  \<open>crash_world\<close> the catalog is present, the failure count is 0, nothing is recorded, and
  the exit status is 1.
\<close>

theorem crash_exit_status:
  "exit_status (ending (main crash_world s0)) = 1
   \<and> failure_count (main crash_world s0) = 0
   \<and> failures_txt (final (main crash_world s0)) = None"
  unfolding crash_main by (simp add: s0_def)

section \<open>A run without failures\<close>

text \<open>
  Claim C10, as stated: after every run in which no brick fails there is no failure log.
  It fails when the catalog is missing: the run ends before the old log is removed.
\<close>

theorem stale_log_survives_missing_catalog:
  "catalog nocat_world = None
   \<and> failure_count (main nocat_world stale) = 0
   \<and> failures_txt (final (main nocat_world stale)) = Some ''old\<newline>''"
  by (simp add: main_def nocat_world_def stale_def)

text \<open>
  Claim C10, amended. After a run with a catalog, the failure log exists exactly when
  the failure count is not 0, and with a failure count of 0 the directory \<open>fail\<close> is as it
  was before.
\<close>

theorem no_log_without_failure:
  assumes "catalog w = Some content"
  shows "(failures_txt (final (main w s)) = None \<longleftrightarrow> failure_count (main w s) = 0)
       \<and> (failure_count (main w s) = 0 \<longrightarrow> fail_dir (final (main w s)) = fail_dir s)"
proof -
  from run_recorded [OF assms, of s] obtain fs where fs:
    "failures_txt (final (main w s)) = (if fs = [] then None else Some (joined fs))"
    "failure_count (main w s) = length fs"
    "fs = [] \<longrightarrow> fail_dir (final (main w s)) = fail_dir s"
    by blast
  show ?thesis
  proof (cases "fs = []")
    case True
    with fs show ?thesis by simp
  next
    case False
    with fs show ?thesis by simp
  qed
qed

text \<open>
  A run in which both bricks pass, started with a log of an earlier run.
\<close>

theorem no_log_without_failure_witness:
  "catalog ok_world = Some ''# checked nightly\<newline>\<newline>alpha\<newline>  #beta \<newline>''
   \<and> failures_txt stale = Some ''old\<newline>''
   \<and> failure_count (main ok_world stale) = 0
   \<and> failures_txt (final (main ok_world stale)) = None
   \<and> fail_dir (final (main ok_world stale)) = fail_dir stale"
  using no_log_without_failure [OF ok_catalog, of stale] ok_catalog ok_main(3) [of stale]
  by (simp add: stale_def)

end
